theory Spec2Isabelle
  imports Complex_Main "HOL-Library.AList"
begin

section \<open>The OGI versus federated-learning simulation (ogi_simulation.py)\<close>

text \<open>
  The simulation is sequential Python. Its state is the agent objects, the runner object
  and two pieces of the process environment: the state of the \<^verbatim>\<open>random\<close> module
  (seeded once, when the module is loaded) and the wall clock read by
  \<^verbatim>\<open>datetime.now()\<close>. The model passes all of them explicitly.

  Python floats are read as real numbers. The cycle counter of an agent starts at 0 and is
  only ever incremented, so it is a natural number. Console output is left out, as are the
  file and chart output of \<^verbatim>\<open>save_results\<close> and \<^verbatim>\<open>generate_analysis\<close>, which run after
  the last scenario and change nothing in the state.
\<close>

subsection \<open>Data\<close>

text \<open>The dictionary built by \<^verbatim>\<open>generate_hypothesis\<close>; the key \<^verbatim>\<open>'type'\<close> is the field \<open>htype\<close>.\<close>

record hypothesis_rec =
  htype :: string
  target :: string
  proposed_change :: string
  confidence :: real

text \<open>The dictionary built by \<^verbatim>\<open>test_hypothesis\<close>.\<close>

record cycle_result =
  hypothesis :: hypothesis_rec
  success_rate :: real
  validation_passed :: bool
  insights_gained :: int

text \<open>A ledger entry; the keys \<^verbatim>\<open>'epoch'\<close> and \<^verbatim>\<open>'hash'\<close> are \<open>l_epoch\<close> and \<open>l_hash\<close>.\<close>

record ledger_entry =
  l_epoch :: nat
  timestamp :: string
  change_type :: string
  validation :: bool
  l_hash :: int

text \<open>
  \<^verbatim>\<open>reasoning_frameworks\<close> is a dict from framework name to strength. It is an
  association list in insertion order: storing under a key that is present replaces the
  value in place, storing under a new key appends (\<open>AList.update\<close>), and an update of the
  value under a present key is \<open>AList.map_entry\<close>.
\<close>

type_synonym frameworks = "(string \<times> real) list"

record OGIAgent =
  agent_id :: string
  scenario :: string
  epoch :: nat
  development_history :: "string list"
  reasoning_frameworks :: frameworks
  ledger :: "ledger_entry list"

record FederatedAgent =
  fl_agent_id :: string
  fl_scenario :: string
  fl_epoch :: nat
  global_model_version :: int

text \<open>The dictionaries built by \<^verbatim>\<open>local_training\<close> and \<^verbatim>\<open>upload_to_server\<close>.\<close>

record local_update =
  model_updates :: string
  local_loss :: real
  samples_trained :: int

record server_response =
  sr_global_model_version :: int
  aggregated_weights :: string
  communication_mb :: real

text \<open>
  One row of \<^verbatim>\<open>self.results\<close>. \<^verbatim>\<open>np.mean\<close> of an empty list is nan, which is
  \<open>None\<close> here.
\<close>

record metric_record =
  m_scenario :: string
  m_epoch :: nat
  cci_ogi :: "real option"
  cci_flower :: "real option"
  mutation_drift_ogi :: "real option"
  mutation_drift_flower :: "real option"
  comm_ogi_mb :: real
  comm_flower_mb :: real
  ogi_agents_count :: nat
  fl_agents_count :: nat

record SimulationRunner =
  scenarios :: "string list"
  num_agents :: int
  num_epochs :: int
  results :: "metric_record list"
  logs :: "string list"

subsection \<open>The process environment\<close>

text \<open>
  The library calls the program makes, as parameters: the four draws of the
  \<^verbatim>\<open>random\<close> module act on the generator state \<open>'g\<close>, \<^verbatim>\<open>datetime.now().isoformat()\<close>
  reads the clock \<open>'t\<close>, and \<^verbatim>\<open>hash(str(result))\<close> is a function of the result.
  Nothing is assumed about what they return.
\<close>

record ('g, 't) env =
  random_choice :: "string list \<Rightarrow> 'g \<Rightarrow> string \<times> 'g"
  random_uniform :: "real \<Rightarrow> real \<Rightarrow> 'g \<Rightarrow> real \<times> 'g"
  random_randint :: "int \<Rightarrow> int \<Rightarrow> 'g \<Rightarrow> int \<times> 'g"
  random_gauss :: "real \<Rightarrow> real \<Rightarrow> 'g \<Rightarrow> real \<times> 'g"
  datetime_now :: "'t \<Rightarrow> string \<times> 't"
  hash_str :: "cycle_result \<Rightarrow> int"

subsection \<open>Formatting of integers (f-strings)\<close>

fun str_nat :: "nat \<Rightarrow> string" where
  "str_nat n =
     (if n < 10 then [char_of (48 + n)] else str_nat (n div 10) @ [char_of (48 + n mod 10)])"

declare str_nat.simps [simp del]

text \<open>The format \<^verbatim>\<open>{epoch:02d}\<close>: at least two digits, padded with a zero.\<close>

definition str_02d :: "nat \<Rightarrow> string" where
  "str_02d n = (if n < 10 then ''0'' @ str_nat n else str_nat n)"

text \<open>The dash U+2014 of one log line, as its three UTF-8 bytes.\<close>

definition em_dash :: string where
  "em_dash = [char_of (226::nat), char_of (128::nat), char_of (148::nat)]"

subsection \<open>OGIAgent\<close>

definition OGIAgent_init :: "string \<Rightarrow> string \<Rightarrow> OGIAgent" where
  "OGIAgent_init aid sc =
     \<lparr>agent_id = aid, scenario = sc, epoch = 0, development_history = [],
      reasoning_frameworks = [], ledger = []\<rparr>"

definition generate_hypothesis ::
  "('g, 't) env \<Rightarrow> OGIAgent \<Rightarrow> 'g \<Rightarrow> hypothesis_rec \<times> 'g" where
  "generate_hypothesis E a g =
     (let (tg, g1) = random_choice E
            [''pattern_recognition'', ''causal_inference'', ''uncertainty_handling''] g;
          (c, g2) = random_uniform E 0.6 0.9 g1
      in (\<lparr>htype = ''framework_revision'', target = tg,
           proposed_change = ''Revision_'' @ str_nat (epoch a), confidence = c\<rparr>, g2))"

definition test_hypothesis ::
  "('g, 't) env \<Rightarrow> hypothesis_rec \<Rightarrow> 'g \<Rightarrow> cycle_result \<times> 'g" where
  "test_hypothesis E h g =
     (let (sr, g1) = random_uniform E 0.7 0.95 g;
          (n, g2) = random_randint E 3 7 g1
      in (\<lparr>hypothesis = h, success_rate = sr, validation_passed = (sr > 0.75),
           insights_gained = n\<rparr>, g2))"

text \<open>
  \<^verbatim>\<open>integrate_learning\<close>: the three assignments to
  \<^verbatim>\<open>self.reasoning_frameworks[framework_key]\<close>, in order. The second and third read the
  key they write; it is present by then (lemma \<open>default_entry_present\<close>).
\<close>

definition integrate_learning :: "OGIAgent \<Rightarrow> cycle_result \<Rightarrow> OGIAgent" where
  "integrate_learning a result =
     (if validation_passed result then
        let framework_key = target (hypothesis result);
            fw0 = (if framework_key \<notin> fst ` set (reasoning_frameworks a)
                   then AList.update framework_key 0.5 (reasoning_frameworks a)
                   else reasoning_frameworks a);
            fw1 = AList.map_entry framework_key (\<lambda>v. v + 0.02 * success_rate result) fw0;
            fw2 = AList.map_entry framework_key (\<lambda>v. min 0.95 v) fw1
        in a\<lparr>reasoning_frameworks := fw2\<rparr>
      else a)"

definition record_to_ledger ::
  "('g, 't) env \<Rightarrow> OGIAgent \<Rightarrow> cycle_result \<Rightarrow> 't \<Rightarrow> OGIAgent \<times> 't" where
  "record_to_ledger E a result t =
     (let (ts, t1) = datetime_now E t;
          entry = \<lparr>l_epoch = epoch a, timestamp = ts, change_type = htype (hypothesis result),
                   validation = validation_passed result, l_hash = hash_str E result\<rparr>
      in (a\<lparr>ledger := ledger a @ [entry]\<rparr>, t1))"

definition develop_epoch ::
  "('g, 't) env \<Rightarrow> OGIAgent \<Rightarrow> 'g \<Rightarrow> 't \<Rightarrow> cycle_result \<times> OGIAgent \<times> 'g \<times> 't" where
  "develop_epoch E a g t =
     (let (h, g1) = generate_hypothesis E a g;
          (result, g2) = test_hypothesis E h g1;
          a1 = integrate_learning a result;
          (a2, t1) = record_to_ledger E a1 result t;
          a3 = a2\<lparr>epoch := epoch a2 + 1\<rparr>
      in (result, a3, g2, t1))"

definition calculate_cci :: "('g, 't) env \<Rightarrow> OGIAgent \<Rightarrow> 'g \<Rightarrow> real \<times> 'g" where
  "calculate_cci E a g =
     (if epoch a = 0 then (0.65, g)
      else
        let base_cci = 0.65 + 0.02 * ln (real (epoch a + 1));
            (noise, g1) = random_gauss E 0 0.02 g;
            cci = base_cci + noise
        in (min 0.95 (max 0.60 cci), g1))"

definition calculate_mutation_drift :: "('g, 't) env \<Rightarrow> OGIAgent \<Rightarrow> 'g \<Rightarrow> real \<times> 'g" where
  "calculate_mutation_drift E a g =
     (let drift = max 0 (0.10 - 0.005 * real (epoch a));
          (noise, g1) = random_gauss E 0 0.01 g
      in (drift + noise, g1))"

subsection \<open>FederatedAgent\<close>

definition FederatedAgent_init :: "string \<Rightarrow> string \<Rightarrow> FederatedAgent" where
  "FederatedAgent_init aid sc =
     \<lparr>fl_agent_id = aid, fl_scenario = sc, fl_epoch = 0, global_model_version = 0\<rparr>"

definition local_training :: "('g, 't) env \<Rightarrow> FederatedAgent \<Rightarrow> 'g \<Rightarrow> local_update \<times> 'g" where
  "local_training E f g =
     (let (loss, g1) = random_uniform E 0.1 0.5 g;
          (n, g2) = random_randint E 100 1000 g1
      in (\<lparr>model_updates = ''weights_v'' @ str_nat (fl_epoch f), local_loss = loss,
           samples_trained = n\<rparr>, g2))"

definition upload_to_server ::
  "('g, 't) env \<Rightarrow> FederatedAgent \<Rightarrow> local_update \<Rightarrow> 'g \<Rightarrow> server_response \<times> 'g" where
  "upload_to_server E f upd g =
     (let (communication_cost, g1) = random_gauss E 45 8 g
      in (\<lparr>sr_global_model_version = global_model_version f + 1,
           aggregated_weights = ''global_v'' @ str_nat (fl_epoch f),
           communication_mb = communication_cost\<rparr>, g1))"

definition download_global_model :: "FederatedAgent \<Rightarrow> server_response \<Rightarrow> FederatedAgent" where
  "download_global_model f resp = f\<lparr>global_model_version := sr_global_model_version resp\<rparr>"

definition train_epoch ::
  "('g, 't) env \<Rightarrow> FederatedAgent \<Rightarrow> 'g \<Rightarrow> local_update \<times> FederatedAgent \<times> 'g" where
  "train_epoch E f g =
     (let (upd, g1) = local_training E f g;
          (resp, g2) = upload_to_server E f upd g1;
          f1 = download_global_model f resp;
          f2 = f1\<lparr>fl_epoch := fl_epoch f1 + 1\<rparr>
      in (upd, f2, g2))"

definition fl_calculate_cci :: "('g, 't) env \<Rightarrow> FederatedAgent \<Rightarrow> 'g \<Rightarrow> real \<times> 'g" where
  "fl_calculate_cci E f g =
     (let (base_cci, g1) = random_gauss E 0.55 0.03 g
      in (max 0.40 (min 0.70 base_cci), g1))"

definition fl_calculate_mutation_drift ::
  "('g, 't) env \<Rightarrow> FederatedAgent \<Rightarrow> 'g \<Rightarrow> real \<times> 'g" where
  "fl_calculate_mutation_drift E f g = random_gauss E 0.25 0.05 g"

subsection \<open>SimulationRunner\<close>

definition SimulationRunner_init :: SimulationRunner where
  "SimulationRunner_init =
     \<lparr>scenarios = [''medical_diagnosis'', ''disaster_response'', ''autonomous_labs''],
      num_agents = 5, num_epochs = 20, results = [], logs = []\<rparr>"

text \<open>
  \<^verbatim>\<open>ogi_supervised_sync\<close> gets the agent objects and could change them, so the model
  returns them beside the communication cost.
\<close>

definition ogi_supervised_sync ::
  "('g, 't) env \<Rightarrow> OGIAgent list \<Rightarrow> 'g \<Rightarrow> real \<times> OGIAgent list \<times> 'g" where
  "ogi_supervised_sync E agents g =
     (let total_insights = sum_list (map (\<lambda>agent. length (reasoning_frameworks agent)) agents);
          (comm_cost, g1) = random_gauss E 15 3 g
      in (comm_cost, agents, g1))"

definition np_mean :: "real list \<Rightarrow> real option" where
  "np_mean xs = (if xs = [] then None else Some (sum_list xs / real (length xs)))"

text \<open>The loops of \<^verbatim>\<open>run_scenario\<close> over the agents, each threading the generator.\<close>

fun develop_all ::
  "('g, 't) env \<Rightarrow> OGIAgent list \<Rightarrow> 'g \<Rightarrow> 't \<Rightarrow> cycle_result list \<times> OGIAgent list \<times> 'g \<times> 't" where
  "develop_all E [] g t = ([], [], g, t)"
| "develop_all E (a # as) g t =
     (let (result, a', g1, t1) = develop_epoch E a g t;
          (rs, as', g2, t2) = develop_all E as g1 t1
      in (result # rs, a' # as', g2, t2))"

text \<open>
  The dictionary returned by \<^verbatim>\<open>train_epoch\<close> has no key \<^verbatim>\<open>'communication_mb'\<close>, so
  \<^verbatim>\<open>result.get('communication_mb', 45)\<close> is the default 45.
\<close>

fun train_all ::
  "('g, 't) env \<Rightarrow> FederatedAgent list \<Rightarrow> real \<Rightarrow> 'g
     \<Rightarrow> local_update list \<times> real \<times> FederatedAgent list \<times> 'g" where
  "train_all E [] fl_comm_total g = ([], fl_comm_total, [], g)"
| "train_all E (f # fs) fl_comm_total g =
     (let (result, f', g1) = train_epoch E f g;
          (rs, total, fs', g2) = train_all E fs (fl_comm_total + 45) g1
      in (result # rs, total, f' # fs', g2))"

text \<open>A list comprehension \<^verbatim>\<open>[agent.m() for agent in agents]\<close> whose method draws.\<close>

fun draw_each :: "('a \<Rightarrow> 'g \<Rightarrow> real \<times> 'g) \<Rightarrow> 'a list \<Rightarrow> 'g \<Rightarrow> real list \<times> 'g" where
  "draw_each m [] g = ([], g)"
| "draw_each m (a # as) g =
     (let (v, g1) = m a g; (vs, g2) = draw_each m as g1 in (v # vs, g2))"

text \<open>The state of the epoch loop: both agent lists, the runner, the generator, the clock.\<close>

type_synonym ('g, 't) loop_state =
  "OGIAgent list \<times> FederatedAgent list \<times> SimulationRunner \<times> 'g \<times> 't"

definition run_epoch ::
  "('g, 't) env \<Rightarrow> string \<Rightarrow> nat \<Rightarrow> ('g, 't) loop_state \<Rightarrow> ('g, 't) loop_state" where
  "run_epoch E sc ep st =
     (let (ogi_agents, fl_agents, r, g, t) = st;
          (ogi_results, ogi_agents1, g1, t1) = develop_all E ogi_agents g t;
          (fl_results, fl_comm_total, fl_agents1, g2) = train_all E fl_agents 0 g1;
          (ogi_comm, ogi_agents2, g3) =
             (if ep mod 5 = 0 then ogi_supervised_sync E ogi_agents1 g2
              else (0, ogi_agents1, g2));
          (ogi_ccis, g4) = draw_each (calculate_cci E) ogi_agents2 g3;
          (fl_ccis, g5) = draw_each (fl_calculate_cci E) fl_agents1 g4;
          (ogi_drifts, g6) = draw_each (calculate_mutation_drift E) ogi_agents2 g5;
          (fl_drifts, g7) = draw_each (fl_calculate_mutation_drift E) fl_agents1 g6;
          row = \<lparr>m_scenario = sc, m_epoch = ep,
                 cci_ogi = np_mean ogi_ccis, cci_flower = np_mean fl_ccis,
                 mutation_drift_ogi = np_mean ogi_drifts,
                 mutation_drift_flower = np_mean fl_drifts,
                 comm_ogi_mb = ogi_comm, comm_flower_mb = fl_comm_total,
                 ogi_agents_count = length ogi_agents2, fl_agents_count = length fl_agents1\<rparr>;
          r1 = r\<lparr>results := results r @ [row]\<rparr>;
          r2 = r1\<lparr>logs := logs r1 @
                 [''Epoch '' @ str_02d ep @ '' ['' @ sc @
                    ''] Flower AI Node: Uploading weights to server...'',
                  ''Epoch '' @ str_02d ep @ '' ['' @ sc @
                    ''] OGI Node: Running self-revision cycle '' @ em_dash @
                    '' local ethics gate passed.'']\<rparr>;
          r3 = (if ep mod 5 = 0 then
                  let coherence_gain = 12 + ep;
                      supervisor_msg = ''Supervisor: OGI coherence +'' @ str_nat coherence_gain @
                        ''%; Flower convergence lagging.''
                  in r2\<lparr>logs := logs r2 @
                        [''Epoch '' @ str_02d ep @ '' ['' @ sc @ ''] '' @ supervisor_msg]\<rparr>
                else r2)
      in (ogi_agents2, fl_agents1, r3, g7, t1))"

fun run_epochs ::
  "('g, 't) env \<Rightarrow> string \<Rightarrow> nat list \<Rightarrow> ('g, 't) loop_state \<Rightarrow> ('g, 't) loop_state" where
  "run_epochs E sc [] st = st"
| "run_epochs E sc (ep # eps) st = run_epochs E sc eps (run_epoch E sc ep st)"

text \<open>\<^verbatim>\<open>range(n)\<close> for a Python integer \<open>n\<close>: empty when \<open>n \<le> 0\<close>.\<close>

definition range_py :: "int \<Rightarrow> nat list" where
  "range_py n = [0 ..< nat n]"

definition run_scenario ::
  "('g, 't) env \<Rightarrow> SimulationRunner \<Rightarrow> string \<Rightarrow> 'g \<Rightarrow> 't \<Rightarrow> SimulationRunner \<times> 'g \<times> 't" where
  "run_scenario E r sc g t =
     (let ogi_agents = map (\<lambda>i. OGIAgent_init (''ogi_'' @ str_nat i) sc) (range_py (num_agents r));
          fl_agents = map (\<lambda>i. FederatedAgent_init (''fl_'' @ str_nat i) sc) (range_py (num_agents r));
          (ogi_agents', fl_agents', r', g', t') =
             run_epochs E sc (range_py (num_epochs r)) (ogi_agents, fl_agents, r, g, t)
      in (r', g', t'))"

text \<open>The scenario loop of \<^verbatim>\<open>run_full_simulation\<close>.\<close>

fun run_scenarios ::
  "('g, 't) env \<Rightarrow> string list \<Rightarrow> SimulationRunner \<Rightarrow> 'g \<Rightarrow> 't \<Rightarrow> SimulationRunner \<times> 'g \<times> 't" where
  "run_scenarios E [] r g t = (r, g, t)"
| "run_scenarios E (sc # scs) r g t =
     (let (r1, g1, t1) = run_scenario E r sc g t in run_scenarios E scs r1 g1 t1)"

definition run_full_simulation ::
  "('g, 't) env \<Rightarrow> SimulationRunner \<Rightarrow> 'g \<Rightarrow> 't \<Rightarrow> SimulationRunner \<times> 'g \<times> 't" where
  "run_full_simulation E r g t = run_scenarios E (scenarios r) r g t"

subsection \<open>The knowledge sharing of the medical diagnosis example (medical_diagnosis.py)\<close>

text \<open>
  \<^verbatim>\<open>MedicalDiagnosticAgent\<close> is a subclass of \<^verbatim>\<open>OGIAgent\<close>. Its \<^verbatim>\<open>case_history\<close> is left
  out: \<^verbatim>\<open>share_medical_knowledge\<close> reaches it only through the fields of an insight that it
  never reads.
\<close>

record MedicalDiagnosticAgent = OGIAgent +
  hospital_id :: int
  patient_population :: string
  diagnostic_frameworks :: frameworks

definition MedicalDiagnosticAgent_init :: "int \<Rightarrow> string \<Rightarrow> MedicalDiagnosticAgent" where
  "MedicalDiagnosticAgent_init hid population =
     \<lparr>agent_id = ''hospital_'' @ (if hid < 0 then ''-'' else '''') @ str_nat (nat \<bar>hid\<bar>),
      scenario = ''medical_diagnosis'', epoch = 0, development_history = [],
      reasoning_frameworks = [], ledger = [],
      hospital_id = hid, patient_population = population,
      diagnostic_frameworks =
        [(''symptom_pattern_recognition'', 0.6), (''risk_factor_assessment'', 0.55),
         (''differential_diagnosis'', 0.5), (''rare_disease_detection'', 0.4),
         (''treatment_response_prediction'', 0.45)]\<rparr>"

text \<open>
  The dictionary built by \<^verbatim>\<open>extract_diagnostic_insights\<close>, with the two keys that
  \<^verbatim>\<open>share_medical_knowledge\<close> reads: the hospital and a copy of its mapping.
\<close>

record insight =
  insight_hospital_id :: int
  insight_frameworks :: frameworks

definition extract_diagnostic_insights :: "MedicalDiagnosticAgent \<Rightarrow> insight" where
  "extract_diagnostic_insights h =
     \<lparr>insight_hospital_id = hospital_id h, insight_frameworks = diagnostic_frameworks h\<rparr>"

text \<open>
  The three nested loops of \<^verbatim>\<open>share_medical_knowledge\<close>, from the innermost: over the
  items of one insight, over the insights, over the hospitals. A hospital reads the other
  hospitals from the insights, which were copied before the first update, and its own
  strength from its mapping as it stands.
\<close>

fun learn_frameworks :: "(string \<times> real) list \<Rightarrow> frameworks \<Rightarrow> frameworks" where
  "learn_frameworks [] own = own"
| "learn_frameworks ((framework, value) # items) own =
     learn_frameworks items
       (if framework \<in> fst ` set own
        then AList.map_entry framework (\<lambda>v. min 0.95 (v + 0.02 * (value - v))) own
        else own)"

fun learn_insights :: "insight list \<Rightarrow> MedicalDiagnosticAgent \<Rightarrow> MedicalDiagnosticAgent" where
  "learn_insights [] h = h"
| "learn_insights (i # insights) h =
     learn_insights insights
       (if insight_hospital_id i \<noteq> hospital_id h
        then h\<lparr>diagnostic_frameworks :=
                 learn_frameworks (insight_frameworks i) (diagnostic_frameworks h)\<rparr>
        else h)"

definition share_medical_knowledge :: "MedicalDiagnosticAgent list \<Rightarrow> MedicalDiagnosticAgent list" where
  "share_medical_knowledge hospitals =
     (let insights = map extract_diagnostic_insights hospitals
      in map (learn_insights insights) hospitals)"

subsection \<open>The synchronization as specified\<close>

text \<open>
  The synchronization in the words of the specification, to compare the code with: every
  strength of an agent becomes the strength before the synchronization plus
  \<open>0.02 * (peer - own)\<close> summed over the other agents that hold the framework, all read
  before the synchronization, clamped to at most 0.95.
\<close>

definition spec_nudged :: "frameworks list \<Rightarrow> string \<Rightarrow> real \<Rightarrow> real" where
  "spec_nudged peers k v =
     min 0.95 (v + sum_list (map (\<lambda>m. case map_of m k of None \<Rightarrow> 0 | Some w \<Rightarrow> 0.02 * (w - v)) peers))"

definition spec_snapshot_sync :: "OGIAgent list \<Rightarrow> OGIAgent list" where
  "spec_snapshot_sync agents =
     map (\<lambda>i. (agents ! i)\<lparr>reasoning_frameworks :=
                 map (\<lambda>(k, v). (k, spec_nudged
                        (map reasoning_frameworks (take i agents @ drop (Suc i) agents)) k v))
                   (reasoning_frameworks (agents ! i))\<rparr>)
       [0 ..< length agents]"

subsection \<open>Runs of the operations, and a concrete environment\<close>

text \<open>
  Successive calls of \<^verbatim>\<open>develop_epoch\<close> on one agent. The list gives the state of the
  generator and of the clock at each call: other draws and other readings of the clock may
  lie between two calls.
\<close>

fun develop_calls :: "('g, 't) env \<Rightarrow> ('g \<times> 't) list \<Rightarrow> OGIAgent \<Rightarrow> OGIAgent" where
  "develop_calls E [] a = a"
| "develop_calls E (w # ws) a =
     develop_calls E ws (fst (snd (develop_epoch E a (fst w) (snd w))))"

text \<open>
  The operations of the program that get hold of an independent-development agent and
  could change it: its own cycle, at some state of generator and clock, and a
  synchronization of a list of agents in which it stands between the agents \<open>before\<close> and
  \<open>after\<close>. (\<^verbatim>\<open>calculate_cci\<close> and \<^verbatim>\<open>calculate_mutation_drift\<close> only read the cycle
  counter.)
\<close>

datatype ('g, 't) agent_op = Cycle 'g 't | Synchronize "OGIAgent list" "OGIAgent list" 'g

fun apply_op :: "('g, 't) env \<Rightarrow> ('g, 't) agent_op \<Rightarrow> OGIAgent \<Rightarrow> OGIAgent" where
  "apply_op E (Cycle g t) a = fst (snd (develop_epoch E a g t))"
| "apply_op E (Synchronize before after g) a =
     fst (snd (ogi_supervised_sync E (before @ a # after) g)) ! length before"

fun apply_ops :: "('g, 't) env \<Rightarrow> ('g, 't) agent_op list \<Rightarrow> OGIAgent \<Rightarrow> OGIAgent" where
  "apply_ops E [] a = a"
| "apply_ops E (op # ops) a = apply_ops E ops (apply_op E op a)"

text \<open>The rows of one scenario among the results of a runner.\<close>

definition records_of :: "string \<Rightarrow> SimulationRunner \<Rightarrow> metric_record list" where
  "records_of sc r = filter (\<lambda>m. m_scenario m = sc) (results r)"

text \<open>
  A small deterministic environment for concrete runs: the generator state and the clock
  are counters, and every draw is computed from the counter.
\<close>

definition counter_env :: "(nat, nat) env" where
  "counter_env =
     \<lparr>random_choice = (\<lambda>xs g. (xs ! (g mod length xs), g + 1)),
      random_uniform = (\<lambda>lo hi g. (lo + (hi - lo) * real (g mod 4) / 4, g + 1)),
      random_randint = (\<lambda>lo hi g. (lo + int g mod (hi - lo + 1), g + 1)),
      random_gauss = (\<lambda>mu sigma g. (mu + sigma * (real (g mod 3) - 1), g + 1)),
      datetime_now = (\<lambda>t. (str_nat t, t + 1)),
      hash_str = (\<lambda>result. insights_gained result)\<rparr>"

text \<open>
  An environment in which every evaluation passes: the first framework is chosen and every
  uniform draw is the upper end of its interval, so the success rate is 0.95.
\<close>

definition passing_env :: "(unit, unit) env" where
  "passing_env =
     \<lparr>random_choice = (\<lambda>xs g. (hd xs, g)),
      random_uniform = (\<lambda>lo hi g. (hi, g)),
      random_randint = (\<lambda>lo hi g. (lo, g)),
      random_gauss = (\<lambda>mu sigma g. (mu, g)),
      datetime_now = (\<lambda>t. ([], t)),
      hash_str = (\<lambda>result. 0)\<rparr>"

text \<open>
  Two agents after one passed cycle each on the same framework, with success rates 0.8
  and 0.9.
\<close>

definition two_agents :: "OGIAgent list" where
  "two_agents =
     [\<lparr>agent_id = ''ogi_0'', scenario = ''medical_diagnosis'', epoch = 1,
       development_history = [],
       reasoning_frameworks = [(''pattern_recognition'', 0.516)],
       ledger = [\<lparr>l_epoch = 0, timestamp = ''t0'', change_type = ''framework_revision'',
                  validation = True, l_hash = 0\<rparr>]\<rparr>,
      \<lparr>agent_id = ''ogi_1'', scenario = ''medical_diagnosis'', epoch = 1,
       development_history = [],
       reasoning_frameworks = [(''pattern_recognition'', 0.518)],
       ledger = [\<lparr>l_epoch = 0, timestamp = ''t1'', change_type = ''framework_revision'',
                  validation = True, l_hash = 0\<rparr>]\<rparr>]"

text \<open>
  The two properties of the framework strengths that hold along every run: each strength
  lies between 0.5 and 0.95, and every strength of the first agent is still there, not
  smaller, in the second.
\<close>

definition strengths_in_range :: "OGIAgent \<Rightarrow> bool" where
  "strengths_in_range a = (\<forall>(k, v) \<in> set (reasoning_frameworks a). 0.5 \<le> v \<and> v \<le> 0.95)"

definition strengths_kept :: "OGIAgent \<Rightarrow> OGIAgent \<Rightarrow> bool" where
  "strengths_kept a b =
     (\<forall>k \<in> set (map fst (reasoning_frameworks a)).
        case (map_of (reasoning_frameworks a) k, map_of (reasoning_frameworks b) k) of
          (Some v, Some v') \<Rightarrow> v \<le> v' | _ \<Rightarrow> False)"




text \<open>Three hospitals that hold one framework at 0.5, 0.6 and 0.7.\<close>

definition three_hospitals :: "MedicalDiagnosticAgent list" where
  "three_hospitals =
     [(MedicalDiagnosticAgent_init 1 ''rural_mining_community'')
        \<lparr>diagnostic_frameworks := [(''differential_diagnosis'', 0.5)]\<rparr>,
      (MedicalDiagnosticAgent_init 2 ''urban_elderly'')
        \<lparr>diagnostic_frameworks := [(''differential_diagnosis'', 0.6)]\<rparr>,
      (MedicalDiagnosticAgent_init 3 ''pediatric_specialized'')
        \<lparr>diagnostic_frameworks := [(''differential_diagnosis'', 0.7)]\<rparr>]"

section \<open>Properties\<close>

lemmas cycle_defs = develop_epoch_def generate_hypothesis_def test_hypothesis_def
  integrate_learning_def record_to_ledger_def counter_env_def OGIAgent_init_def

subsection \<open>The ledger\<close>

lemma develop_epoch_epoch: "epoch (fst (snd (develop_epoch E a g t))) = epoch a + 1"
  by (simp add: develop_epoch_def record_to_ledger_def integrate_learning_def split_beta Let_def)

lemma develop_epoch_ledger:
  "\<exists>e. ledger (fst (snd (develop_epoch E a g t))) = ledger a @ [e] \<and> l_epoch e = epoch a"
  by (simp add: develop_epoch_def record_to_ledger_def integrate_learning_def split_beta Let_def)

lemma develop_calls_append:
  "develop_calls E (ws @ ws') a = develop_calls E ws' (develop_calls E ws a)"
  by (induction ws arbitrary: a) simp_all

lemma develop_calls_ledger:
  "\<exists>es. ledger (develop_calls E ws a) = ledger a @ es \<and>
        map l_epoch es = [epoch a ..< epoch a + length ws] \<and>
        epoch (develop_calls E ws a) = epoch a + length ws"
proof (induction ws arbitrary: a)
  case Nil
  then show ?case by simp
next
  case (Cons w ws)
  let ?a' = "fst (snd (develop_epoch E a (fst w) (snd w)))"
  from develop_epoch_ledger [of E a "fst w" "snd w"] obtain e
    where e: "ledger ?a' = ledger a @ [e]" "l_epoch e = epoch a" by auto
  have ep: "epoch ?a' = epoch a + 1" by (rule develop_epoch_epoch)
  from Cons.IH [of ?a'] obtain es where
    es: "ledger (develop_calls E ws ?a') = ledger ?a' @ es"
        "map l_epoch es = [epoch ?a' ..< epoch ?a' + length ws]"
        "epoch (develop_calls E ws ?a') = epoch ?a' + length ws" by blast
  have "ledger (develop_calls E (w # ws) a) = ledger a @ (e # es)"
    using e es by simp
  moreover have "map l_epoch (e # es) = [epoch a ..< epoch a + length (w # ws)]"
  proof -
    have "[epoch a ..< epoch a + length (w # ws)]
            = epoch a # [Suc (epoch a) ..< epoch a + length (w # ws)]"
      by (rule upt_conv_Cons) simp
    with e es ep show ?thesis by simp
  qed
  moreover have "epoch (develop_calls E (w # ws) a) = epoch a + length (w # ws)"
    using es ep by simp
  ultimately show ?case by blast
qed

text \<open>
  Claim C3. After exactly \<open>k\<close> calls of \<^verbatim>\<open>develop_epoch\<close> on a new agent (\<open>k\<close> is the length
  of \<open>ws\<close>) the ledger has \<open>k\<close> entries and their cycle indices are \<open>0, 1, \<dots>, k - 1\<close> in this
  order. Whatever calls follow, these \<open>k\<close> entries stay the first \<open>k\<close> entries of the ledger,
  unchanged in every field.
\<close>

theorem ledger_append_only:
  "length (ledger (develop_calls E ws (OGIAgent_init i s))) = length ws \<and>
   map l_epoch (ledger (develop_calls E ws (OGIAgent_init i s))) = [0 ..< length ws] \<and>
   take (length ws) (ledger (develop_calls E (ws @ ws') (OGIAgent_init i s)))
     = ledger (develop_calls E ws (OGIAgent_init i s))"
proof -
  let ?a = "OGIAgent_init i s"
  have init: "ledger ?a = []" "epoch ?a = 0" by (simp_all add: OGIAgent_init_def)
  from develop_calls_ledger [of E ws ?a] init
  have eps: "map l_epoch (ledger (develop_calls E ws ?a)) = [0 ..< length ws]" by auto
  have "length (map l_epoch (ledger (develop_calls E ws ?a))) = length ws"
    by (simp only: eps) simp
  then have len: "length (ledger (develop_calls E ws ?a)) = length ws" by simp
  from develop_calls_ledger [of E ws' "develop_calls E ws ?a"] obtain es where
    "ledger (develop_calls E (ws @ ws') ?a) = ledger (develop_calls E ws ?a) @ es"
    by (auto simp: develop_calls_append)
  with len have "take (length ws) (ledger (develop_calls E (ws @ ws') ?a))
                   = ledger (develop_calls E ws ?a)" by simp
  with len eps show ?thesis by simp
qed

text \<open>
  Two calls followed by a third, in the counter environment, with other draws between the
  calls.
\<close>

theorem ledger_append_only_witness:
  "length (ledger (develop_calls counter_env [(0, 0), (9, 1)]
       (OGIAgent_init ''ogi_0'' ''medical_diagnosis''))) = 2 \<and>
   map l_epoch (ledger (develop_calls counter_env [(0, 0), (9, 1)]
       (OGIAgent_init ''ogi_0'' ''medical_diagnosis''))) = [0, 1] \<and>
   take 2 (ledger (develop_calls counter_env ([(0, 0), (9, 1)] @ [(20, 2)])
       (OGIAgent_init ''ogi_0'' ''medical_diagnosis'')))
     = ledger (develop_calls counter_env [(0, 0), (9, 1)]
         (OGIAgent_init ''ogi_0'' ''medical_diagnosis''))"
proof -
  have l: "length [(0::nat, 0::nat), (9, 1)] = 2" by simp
  have u: "[0 ..< 2] = [0, 1::nat]" by (simp add: upt_rec)
  from ledger_append_only [of counter_env "[(0, 0), (9, 1)]" "''ogi_0''" "''medical_diagnosis''"
      "[(20, 2)]"]
  show ?thesis by (simp only: l u)
qed

subsection \<open>The framework mapping\<close>

lemma set_update_subset: "set (AList.update k v xs) \<subseteq> insert (k, v) (set xs)"
  by (induction xs) auto

lemma set_map_entry_cases:
  "(k', v') \<in> set (AList.map_entry k f xs) \<Longrightarrow>
     (k', v') \<in> set xs \<or> (\<exists>v. (k, v) \<in> set xs \<and> k' = k \<and> v' = f v)"
  by (induction xs) (auto split: if_splits)

lemma map_entry_twice:
  "AList.map_entry k f (AList.map_entry k h xs) = AList.map_entry k (\<lambda>v. f (h v)) xs"
  by (induction xs) auto

lemma default_entry_present:
  "k \<in> fst ` set (if k \<notin> fst ` set fw then AList.update k d fw else fw)"
  by (simp add: AList.dom_update)

lemma integrate_learning_frame:
  "epoch (integrate_learning a r) = epoch a \<and> ledger (integrate_learning a r) = ledger a \<and>
   agent_id (integrate_learning a r) = agent_id a \<and> scenario (integrate_learning a r) = scenario a"
  by (simp add: integrate_learning_def Let_def)

lemma integrate_learning_failed:
  "\<not> validation_passed r \<Longrightarrow> integrate_learning a r = a"
  by (simp add: integrate_learning_def)

lemma integrate_learning_passed:
  "validation_passed r \<Longrightarrow>
     reasoning_frameworks (integrate_learning a r) =
       AList.map_entry (target (hypothesis r)) (\<lambda>v. min 0.95 (v + 0.02 * success_rate r))
         (if target (hypothesis r) \<notin> fst ` set (reasoning_frameworks a)
          then AList.update (target (hypothesis r)) 0.5 (reasoning_frameworks a)
          else reasoning_frameworks a)"
  by (simp add: integrate_learning_def Let_def map_entry_twice)

lemma integrate_learning_map_of:
  assumes "validation_passed r"
  shows "map_of (reasoning_frameworks (integrate_learning a r)) =
       (map_of (reasoning_frameworks a))
         (target (hypothesis r) \<mapsto>
            min 0.95 ((case map_of (reasoning_frameworks a) (target (hypothesis r)) of
                         None \<Rightarrow> 0.5 | Some v \<Rightarrow> v) + 0.02 * success_rate r))"
proof (cases "target (hypothesis r) \<in> fst ` set (reasoning_frameworks a)")
  case True
  then obtain v where "map_of (reasoning_frameworks a) (target (hypothesis r)) = Some v"
    by (metis map_of_eq_None_iff not_Some_eq)
  with True assms show ?thesis
    by (auto simp: integrate_learning_passed AList.map_of_map_entry fun_eq_iff)
next
  case False
  then have "map_of (reasoning_frameworks a) (target (hypothesis r)) = None"
    by (simp add: map_of_eq_None_iff)
  with False assms show ?thesis
    by (auto simp: integrate_learning_passed AList.map_of_map_entry AList.update_conv' fun_eq_iff)
qed

lemma integrate_learning_range:
  assumes inv: "\<forall>(k, v) \<in> set (reasoning_frameworks a). lo \<le> v \<and> v \<le> 0.95"
    and lo: "lo \<le> 0.5" and sr: "validation_passed r \<longrightarrow> 0 \<le> success_rate r"
  shows "\<forall>(k, v) \<in> set (reasoning_frameworks (integrate_learning a r)). lo \<le> v \<and> v \<le> 0.95"
proof (cases "validation_passed r")
  case False
  with inv show ?thesis by (simp add: integrate_learning_failed)
next
  case True
  let ?k = "target (hypothesis r)"
  let ?fw0 = "if ?k \<notin> fst ` set (reasoning_frameworks a)
              then AList.update ?k 0.5 (reasoning_frameworks a) else reasoning_frameworks a"
  have fw0: "\<forall>(k, v) \<in> set ?fw0. lo \<le> v \<and> v \<le> 0.95"
    using inv lo set_update_subset [of ?k "0.5::real" "reasoning_frameworks a"] by auto
  show ?thesis
  proof (clarify)
    fix k v assume "(k, v) \<in> set (reasoning_frameworks (integrate_learning a r))"
    then have "(k, v) \<in> set (AList.map_entry ?k (\<lambda>v. min 0.95 (v + 0.02 * success_rate r)) ?fw0)"
      using True by (simp only: integrate_learning_passed)
    from set_map_entry_cases [OF this]
    show "lo \<le> v \<and> v \<le> 0.95"
    proof
      assume "(k, v) \<in> set ?fw0"
      with fw0 show ?thesis by blast
    next
      assume "\<exists>w. (?k, w) \<in> set ?fw0 \<and> k = ?k \<and> v = min 0.95 (w + 0.02 * success_rate r)"
      then obtain w where w: "(?k, w) \<in> set ?fw0" "v = min 0.95 (w + 0.02 * success_rate r)"
        by blast
      from w(1) fw0 have "lo \<le> w" by blast
      with w(2) sr True lo show ?thesis by (simp add: min_def)
    qed
  qed
qed

lemma develop_epoch_result:
  "fst (develop_epoch E a g t) =
     fst (test_hypothesis E (fst (generate_hypothesis E a g)) (snd (generate_hypothesis E a g)))"
  by (simp add: develop_epoch_def split_beta Let_def)

lemma test_hypothesis_validation:
  "validation_passed (fst (test_hypothesis E h g)) = (success_rate (fst (test_hypothesis E h g)) > 0.75)"
  by (simp add: test_hypothesis_def split_beta Let_def)

lemma develop_epoch_validation:
  "validation_passed (fst (develop_epoch E a g t)) = (success_rate (fst (develop_epoch E a g t)) > 0.75)"
  by (simp only: develop_epoch_result test_hypothesis_validation)

lemma develop_epoch_frameworks:
  "reasoning_frameworks (fst (snd (develop_epoch E a g t))) =
     reasoning_frameworks (integrate_learning a (fst (develop_epoch E a g t)))"
  by (simp add: develop_epoch_def record_to_ledger_def split_beta Let_def)

lemma develop_epoch_range:
  assumes "\<forall>(k, v) \<in> set (reasoning_frameworks a). lo \<le> v \<and> v \<le> 0.95" "lo \<le> 0.5"
  shows "\<forall>(k, v) \<in> set (reasoning_frameworks (fst (snd (develop_epoch E a g t)))). lo \<le> v \<and> v \<le> 0.95"
proof -
  have "validation_passed (fst (develop_epoch E a g t)) \<longrightarrow> 0 \<le> success_rate (fst (develop_epoch E a g t))"
    by (simp add: develop_epoch_validation)
  from integrate_learning_range [OF assms this] show ?thesis
    by (simp only: develop_epoch_frameworks)
qed

lemma integrate_learning_upper:
  assumes inv: "\<forall>(k, v) \<in> set (reasoning_frameworks a). v \<le> 0.95"
  shows "\<forall>(k, v) \<in> set (reasoning_frameworks (integrate_learning a r)). v \<le> 0.95"
proof (cases "validation_passed r")
  case False
  with inv show ?thesis by (simp add: integrate_learning_failed)
next
  case True
  let ?k = "target (hypothesis r)"
  let ?fw0 = "if ?k \<notin> fst ` set (reasoning_frameworks a)
              then AList.update ?k 0.5 (reasoning_frameworks a) else reasoning_frameworks a"
  have fw0: "\<forall>(k, v) \<in> set ?fw0. v \<le> 0.95"
    using inv set_update_subset [of ?k "0.5::real" "reasoning_frameworks a"] by auto
  show ?thesis
  proof (clarify)
    fix k v assume "(k, v) \<in> set (reasoning_frameworks (integrate_learning a r))"
    then have "(k, v) \<in> set (AList.map_entry ?k (\<lambda>v. min 0.95 (v + 0.02 * success_rate r)) ?fw0)"
      using True by (simp only: integrate_learning_passed)
    from set_map_entry_cases [OF this]
    show "v \<le> 0.95"
    proof
      assume "(k, v) \<in> set ?fw0"
      with fw0 show ?thesis by blast
    next
      assume "\<exists>w. (?k, w) \<in> set ?fw0 \<and> k = ?k \<and> v = min 0.95 (w + 0.02 * success_rate r)"
      then obtain w where "v = min 0.95 (w + 0.02 * success_rate r)" by blast
      then show ?thesis by (simp only: min.cobounded1)
    qed
  qed
qed

lemma develop_calls_upper:
  "\<forall>(k, v) \<in> set (reasoning_frameworks a). v \<le> 0.95 \<Longrightarrow>
   \<forall>(k, v) \<in> set (reasoning_frameworks (develop_calls E ws a)). v \<le> 0.95"
proof (induction ws arbitrary: a)
  case Nil
  then show ?case by simp
next
  case (Cons w ws)
  let ?a' = "fst (snd (develop_epoch E a (fst w) (snd w)))"
  from integrate_learning_upper [OF Cons.prems]
  have "\<forall>(k, v) \<in> set (reasoning_frameworks ?a'). v \<le> 0.95"
    by (simp only: develop_epoch_frameworks)
  from Cons.IH [OF this] show ?case by simp
qed

text \<open>
  Claim C7. After any number of calls of \<^verbatim>\<open>develop_epoch\<close> on a new agent, with any
  draws (so also when every evaluation passes), no framework strength exceeds 0.95.
\<close>

theorem framework_strength_bounded:
  "\<forall>(k, v) \<in> set (reasoning_frameworks (develop_calls E ws (OGIAgent_init i s))). v \<le> 0.95"
  by (rule develop_calls_upper) (simp add: OGIAgent_init_def)

text \<open>
  When every evaluation passes with success rate 0.95 on the same framework, its strength
  after \<open>n \<ge> 1\<close> cycles is \<open>min 0.95 (0.5 + 0.019 * n)\<close>.
\<close>

lemma passing_env_cycle:
  "reasoning_frameworks (fst (snd (develop_epoch passing_env a g t))) =
     AList.map_entry ''pattern_recognition'' (\<lambda>v. min 0.95 (v + 0.019))
       (if ''pattern_recognition'' \<notin> fst ` set (reasoning_frameworks a)
        then AList.update ''pattern_recognition'' 0.5 (reasoning_frameworks a)
        else reasoning_frameworks a)"
proof -
  have r: "validation_passed (fst (develop_epoch passing_env a g t))"
          "success_rate (fst (develop_epoch passing_env a g t)) = 0.95"
          "target (hypothesis (fst (develop_epoch passing_env a g t))) = ''pattern_recognition''"
    by (simp_all add: develop_epoch_def generate_hypothesis_def test_hypothesis_def
          passing_env_def split_beta Let_def)
  have "(0.02::real) * 0.95 = 0.019" by simp
  with integrate_learning_passed [OF r(1), of a] r(2,3) show ?thesis
    by (simp only: develop_epoch_frameworks)
qed

lemma passing_env_strength:
  "reasoning_frameworks a = [(''pattern_recognition'', v)] \<Longrightarrow> v \<le> 0.95 \<Longrightarrow>
     reasoning_frameworks (develop_calls passing_env (replicate n w) a)
       = [(''pattern_recognition'', min 0.95 (v + 0.019 * real n))]"
proof (induction n arbitrary: a v)
  case 0
  then show ?case by simp
next
  case (Suc n)
  let ?a' = "fst (snd (develop_epoch passing_env a (fst w) (snd w)))"
  from Suc.prems(1) have a': "reasoning_frameworks ?a' = [(''pattern_recognition'', min 0.95 (v + 0.019))]"
    by (simp add: passing_env_cycle)
  have nn: "0 \<le> (0.019::real) * real n" by simp
  have sn: "v + 0.019 * real (Suc n) = v + 0.019 + 0.019 * real n" by (simp add: algebra_simps)
  have "min 0.95 (min 0.95 (v + 0.019) + 0.019 * real n) = min 0.95 (v + 0.019 * real (Suc n))"
  proof (cases "v + 0.019 \<le> 0.95")
    case True
    then have "min 0.95 (v + 0.019) = v + 0.019" by (rule min_absorb2)
    then show ?thesis by (simp only: sn)
  next
    case False
    then have b: "0.95 \<le> v + 0.019" by simp
    then have "min 0.95 (v + 0.019) = 0.95" by (rule min_absorb1)
    moreover from nn have "min 0.95 (0.95 + 0.019 * real n) = 0.95"
      by (intro min_absorb1) linarith
    moreover from nn b have "min 0.95 (v + 0.019 + 0.019 * real n) = 0.95"
      by (intro min_absorb1) linarith
    ultimately show ?thesis by (simp only: sn)
  qed
  then have eq: "min 0.95 (min 0.95 (v + 0.019) + 0.019 * real n) = min 0.95 (v + 0.019 * real (Suc n))" .
  have le: "min 0.95 (v + 0.019) \<le> 0.95" by (rule min.cobounded1)
  from Suc.IH [OF a' le]
  have "reasoning_frameworks (develop_calls passing_env (replicate n w) ?a')
          = [(''pattern_recognition'', min 0.95 (v + 0.019 * real (Suc n)))]"
    by (simp only: eq)
  then show ?case by (simp only: replicate.simps develop_calls.simps)
qed

text \<open>
  The agent of the clamp test: 10000 cycles that all pass. Its one strength is exactly 0.95.
\<close>

theorem framework_strength_bounded_witness:
  "(''pattern_recognition'', 0.95) \<in>
      set (reasoning_frameworks (develop_calls passing_env (replicate 10000 ((), ()))
             (OGIAgent_init ''ogi_0'' ''medical_diagnosis'')))
   \<and> (0.95::real) \<le> 0.95"
proof -
  let ?a = "OGIAgent_init ''ogi_0'' ''medical_diagnosis''"
  let ?a1 = "fst (snd (develop_epoch passing_env ?a () ()))"
  have "reasoning_frameworks ?a1 = [(''pattern_recognition'', 0.519)]"
    by (simp add: passing_env_cycle OGIAgent_init_def)
  from passing_env_strength [OF this, of 9999 "((), ())"]
  have "reasoning_frameworks (develop_calls passing_env (replicate 9999 ((), ())) ?a1)
          = [(''pattern_recognition'', 0.95)]" by simp
  moreover have "replicate 10000 ((), ()) = ((), ()) # replicate 9999 ((), ())"
    by (simp add: replicate_Suc [symmetric] del: replicate_Suc replicate.simps)
  ultimately have m: "(''pattern_recognition'', 0.95) \<in>
      set (reasoning_frameworks (develop_calls passing_env (replicate 10000 ((), ())) ?a))"
    by simp
  with framework_strength_bounded [of passing_env "replicate 10000 ((), ())" "''ogi_0''"
      "''medical_diagnosis''"]
  have "(0.95::real) \<le> 0.95" by simp
  with m show ?thesis by simp
qed

text \<open>
  Claim C8. In one call of \<^verbatim>\<open>develop_epoch\<close> the evaluation passes exactly when the
  success rate is above 0.75. When it fails the mapping is unchanged. When it passes, the
  target framework gets the strength \<open>min 0.95 (old + 0.02 * success_rate)\<close>, where
  \<open>old\<close> is 0.5 for a framework that was absent, and every other framework keeps its entry.
\<close>

theorem develop_epoch_mapping_effect:
  assumes "develop_epoch E a g t = (result, a', g', t')"
  shows "validation_passed result = (success_rate result > 0.75) \<and>
     (success_rate result \<le> 0.75 \<longrightarrow> reasoning_frameworks a' = reasoning_frameworks a) \<and>
     (success_rate result > 0.75 \<longrightarrow>
        map_of (reasoning_frameworks a') (target (hypothesis result)) =
          Some (min 0.95 ((case map_of (reasoning_frameworks a) (target (hypothesis result)) of
                             None \<Rightarrow> 0.5 | Some v \<Rightarrow> v) + 0.02 * success_rate result)) \<and>
        (\<forall>k. k \<noteq> target (hypothesis result) \<longrightarrow>
              map_of (reasoning_frameworks a') k = map_of (reasoning_frameworks a) k))"
proof -
  from assms develop_epoch_validation [of E a g t]
  have v: "validation_passed result = (success_rate result > 0.75)" by simp
  from assms develop_epoch_frameworks [of E a g t]
  have fw: "reasoning_frameworks a' = reasoning_frameworks (integrate_learning a result)" by simp
  have "success_rate result \<le> 0.75 \<longrightarrow> reasoning_frameworks a' = reasoning_frameworks a"
    using v fw by (simp add: integrate_learning_failed)
  moreover have "success_rate result > 0.75 \<longrightarrow>
        map_of (reasoning_frameworks a') (target (hypothesis result)) =
          Some (min 0.95 ((case map_of (reasoning_frameworks a) (target (hypothesis result)) of
                             None \<Rightarrow> 0.5 | Some v \<Rightarrow> v) + 0.02 * success_rate result)) \<and>
        (\<forall>k. k \<noteq> target (hypothesis result) \<longrightarrow>
              map_of (reasoning_frameworks a') k = map_of (reasoning_frameworks a) k)"
    using v fw by (simp add: integrate_learning_map_of)
  ultimately show ?thesis using v by blast
qed

text \<open>
  A passed cycle (success rate 0.825) and a failed one (success rate 0.7) of a new agent in
  the counter environment.
\<close>

theorem develop_epoch_mapping_effect_witness:
  "(success_rate (fst (develop_epoch counter_env (OGIAgent_init ''ogi_0'' ''medical_diagnosis'') 0 0)) > 0.75 \<and>
    map_of (reasoning_frameworks (fst (snd
       (develop_epoch counter_env (OGIAgent_init ''ogi_0'' ''medical_diagnosis'') 0 0))))
       ''pattern_recognition'' = Some 0.5165 \<and>
    map_of (reasoning_frameworks (fst (snd
       (develop_epoch counter_env (OGIAgent_init ''ogi_0'' ''medical_diagnosis'') 0 0))))
       ''causal_inference'' = None) \<and>
   (success_rate (fst (develop_epoch counter_env (OGIAgent_init ''ogi_0'' ''medical_diagnosis'') 2 0)) \<le> 0.75 \<and>
    reasoning_frameworks (fst (snd
       (develop_epoch counter_env (OGIAgent_init ''ogi_0'' ''medical_diagnosis'') 2 0))) = [])"
proof -
  let ?a = "OGIAgent_init ''ogi_0'' ''medical_diagnosis''"
  let ?p = "develop_epoch counter_env ?a 0 0"
  let ?f = "develop_epoch counter_env ?a 2 0"
  have p: "?p = (fst ?p, fst (snd ?p), fst (snd (snd ?p)), snd (snd (snd ?p)))" by simp
  have f: "?f = (fst ?f, fst (snd ?f), fst (snd (snd ?f)), snd (snd (snd ?f)))" by simp
  have srp: "success_rate (fst ?p) = 0.825" and tg: "target (hypothesis (fst ?p)) = ''pattern_recognition''"
    by (simp_all add: cycle_defs Let_def split_beta)
  have srf: "success_rate (fst ?f) = 0.7"
    by (simp add: cycle_defs Let_def split_beta)
  have a: "reasoning_frameworks ?a = []" by (simp add: OGIAgent_init_def)
  from develop_epoch_mapping_effect [OF p] srp tg a
  have "map_of (reasoning_frameworks (fst (snd ?p))) ''pattern_recognition'' = Some 0.5165 \<and>
        map_of (reasoning_frameworks (fst (snd ?p))) ''causal_inference'' = None"
    by simp
  moreover from develop_epoch_mapping_effect [OF f] srf a
  have "reasoning_frameworks (fst (snd ?f)) = []" by simp
  ultimately show ?thesis using srp srf by simp
qed

lemma strengths_kept_iff:
  "strengths_kept a b \<longleftrightarrow>
     (\<forall>k v. map_of (reasoning_frameworks a) k = Some v \<longrightarrow>
            (\<exists>v'. map_of (reasoning_frameworks b) k = Some v' \<and> v \<le> v'))"
proof
  assume l: "strengths_kept a b"
  show "\<forall>k v. map_of (reasoning_frameworks a) k = Some v \<longrightarrow>
            (\<exists>v'. map_of (reasoning_frameworks b) k = Some v' \<and> v \<le> v')"
  proof (intro allI impI)
    fix k v assume kv: "map_of (reasoning_frameworks a) k = Some v"
    then have "k \<in> set (map fst (reasoning_frameworks a))"
      by (metis map_of_eq_None_iff option.distinct(1) set_map)
    with l have "case (map_of (reasoning_frameworks a) k, map_of (reasoning_frameworks b) k) of
          (Some v, Some v') \<Rightarrow> v \<le> v' | _ \<Rightarrow> False"
      unfolding strengths_kept_def by blast
    with kv show "\<exists>v'. map_of (reasoning_frameworks b) k = Some v' \<and> v \<le> v'"
      by (auto split: option.splits)
  qed
next
  assume r: "\<forall>k v. map_of (reasoning_frameworks a) k = Some v \<longrightarrow>
            (\<exists>v'. map_of (reasoning_frameworks b) k = Some v' \<and> v \<le> v')"
  show "strengths_kept a b"
    unfolding strengths_kept_def
  proof
    fix k assume "k \<in> set (map fst (reasoning_frameworks a))"
    then obtain v where "map_of (reasoning_frameworks a) k = Some v"
      by (metis map_of_eq_None_iff not_Some_eq set_map)
    with r show "case (map_of (reasoning_frameworks a) k, map_of (reasoning_frameworks b) k) of
          (Some v, Some v') \<Rightarrow> v \<le> v' | _ \<Rightarrow> False"
      by fastforce
  qed
qed

lemma strengths_kept_refl: "strengths_kept a a"
  by (simp add: strengths_kept_iff)

lemma strengths_kept_trans: "strengths_kept a b \<Longrightarrow> strengths_kept b c \<Longrightarrow> strengths_kept a c"
  unfolding strengths_kept_iff by (meson order_trans)

lemma develop_epoch_in_range:
  "strengths_in_range a \<Longrightarrow> strengths_in_range (fst (snd (develop_epoch E a g t)))"
  unfolding strengths_in_range_def by (rule develop_epoch_range) simp_all

lemma develop_epoch_kept:
  assumes "strengths_in_range a"
  shows "strengths_kept a (fst (snd (develop_epoch E a g t)))"
proof (cases "validation_passed (fst (develop_epoch E a g t))")
  case False
  then have "reasoning_frameworks (fst (snd (develop_epoch E a g t))) = reasoning_frameworks a"
    by (simp add: develop_epoch_frameworks integrate_learning_failed)
  then show ?thesis by (simp add: strengths_kept_iff)
next
  case True
  let ?r = "fst (develop_epoch E a g t)"
  have sr: "success_rate ?r > 0.75" using True by (simp add: develop_epoch_validation)
  have m: "map_of (reasoning_frameworks (fst (snd (develop_epoch E a g t)))) =
       (map_of (reasoning_frameworks a))
         (target (hypothesis ?r) \<mapsto>
            min 0.95 ((case map_of (reasoning_frameworks a) (target (hypothesis ?r)) of
                         None \<Rightarrow> 0.5 | Some v \<Rightarrow> v) + 0.02 * success_rate ?r))"
    using True by (simp only: develop_epoch_frameworks integrate_learning_map_of)
  show ?thesis
    unfolding strengths_kept_iff
  proof (intro allI impI)
    fix k v assume kv: "map_of (reasoning_frameworks a) k = Some v"
    then have "(k, v) \<in> set (reasoning_frameworks a)" by (rule map_of_SomeD)
    with assms have "v \<le> 0.95" unfolding strengths_in_range_def by blast
    with sr have "v \<le> min 0.95 (v + 0.02 * success_rate ?r)" by (simp add: min_def)
    with kv m show "\<exists>v'. map_of (reasoning_frameworks (fst (snd (develop_epoch E a g t)))) k = Some v' \<and> v \<le> v'"
      by (cases "k = target (hypothesis ?r)") simp_all
  qed
qed

lemma sync_agents: "fst (snd (ogi_supervised_sync E as g)) = as"
  by (simp add: ogi_supervised_sync_def split_beta Let_def)

lemma apply_op_sync: "apply_op E (Synchronize before after g) a = a"
  by (simp add: sync_agents)

lemma apply_op_in_range: "strengths_in_range a \<Longrightarrow> strengths_in_range (apply_op E op a)"
  by (cases op) (simp_all add: develop_epoch_in_range sync_agents)

lemma apply_op_kept: "strengths_in_range a \<Longrightarrow> strengths_kept a (apply_op E op a)"
  by (cases op) (simp_all add: develop_epoch_kept sync_agents strengths_kept_refl)

lemma apply_ops_append: "apply_ops E (ops @ ops') a = apply_ops E ops' (apply_ops E ops a)"
  by (induction ops arbitrary: a) simp_all

lemma apply_ops_agent:
  "strengths_in_range a \<Longrightarrow>
     strengths_in_range (apply_ops E ops a) \<and> strengths_kept a (apply_ops E ops a)"
proof (induction ops arbitrary: a)
  case Nil
  then show ?case by (simp add: strengths_kept_refl)
next
  case (Cons op ops)
  from Cons.prems have 1: "strengths_in_range (apply_op E op a)" by (rule apply_op_in_range)
  from Cons.prems have 2: "strengths_kept a (apply_op E op a)" by (rule apply_op_kept)
  from Cons.IH [OF 1] 2 show ?case by (auto intro: strengths_kept_trans)
qed

text \<open>
  Claim C10. For an agent that starts with the empty mapping of its constructor, after any
  sequence of cycles and synchronizations every strength lies in \<open>[0.5, 0.95]\<close>; and
  whatever operations follow, every entry is still present with a strength that is not
  smaller.
\<close>

theorem framework_strengths_stay_in_range:
  "(\<forall>(k, v) \<in> set (reasoning_frameworks (apply_ops E ops (OGIAgent_init i s))).
      0.5 \<le> v \<and> v \<le> 0.95) \<and>
   (\<forall>k v. map_of (reasoning_frameworks (apply_ops E ops (OGIAgent_init i s))) k = Some v \<longrightarrow>
      (\<exists>v'. map_of (reasoning_frameworks (apply_ops E (ops @ ops') (OGIAgent_init i s))) k = Some v'
             \<and> v \<le> v'))"
proof -
  have init: "strengths_in_range (OGIAgent_init i s)"
    by (simp add: strengths_in_range_def OGIAgent_init_def)
  from apply_ops_agent [OF init, of E ops]
  have 1: "strengths_in_range (apply_ops E ops (OGIAgent_init i s))" by simp
  from apply_ops_agent [OF 1, of E ops']
  have "strengths_kept (apply_ops E ops (OGIAgent_init i s))
          (apply_ops E (ops @ ops') (OGIAgent_init i s))"
    by (simp add: apply_ops_append)
  with 1 show ?thesis by (simp add: strengths_in_range_def strengths_kept_iff)
qed

text \<open>
  One agent in the counter environment: the entry after a cycle, and the same entry after a
  synchronization with the two agents above and a second cycle.
\<close>

theorem framework_strengths_stay_in_range_witness:
  "(''pattern_recognition'', 0.5165) \<in> set (reasoning_frameworks
       (apply_ops counter_env [Cycle 0 0] (OGIAgent_init ''ogi_0'' ''medical_diagnosis''))) \<and>
   (0.5::real) \<le> 0.5165 \<and> (0.5165::real) \<le> 0.95 \<and>
   (\<exists>v'. map_of (reasoning_frameworks
       (apply_ops counter_env ([Cycle 0 0] @ [Synchronize two_agents [] 11, Cycle 12 1])
          (OGIAgent_init ''ogi_0'' ''medical_diagnosis''))) ''pattern_recognition'' = Some v'
        \<and> 0.5165 \<le> v')"
proof -
  let ?a = "OGIAgent_init ''ogi_0'' ''medical_diagnosis''"
  have run: "reasoning_frameworks (apply_ops counter_env [Cycle 0 0] ?a)
               = [(''pattern_recognition'', 0.5165)]"
    by (simp add: cycle_defs Let_def)
  then have "map_of (reasoning_frameworks (apply_ops counter_env [Cycle 0 0] ?a))
               ''pattern_recognition'' = Some 0.5165" by simp
  with framework_strengths_stay_in_range [of counter_env "[Cycle 0 0]" "''ogi_0''"
      "''medical_diagnosis''" "[Synchronize two_agents [] 11, Cycle 12 1]"]
  have "\<exists>v'. map_of (reasoning_frameworks
       (apply_ops counter_env ([Cycle 0 0] @ [Synchronize two_agents [] 11, Cycle 12 1]) ?a))
          ''pattern_recognition'' = Some v' \<and> 0.5165 \<le> v'"
    by blast
  with run show ?thesis by simp
qed

subsection \<open>The metric formulas\<close>

text \<open>
  Claim C5. \<^verbatim>\<open>calculate_cci\<close> returns exactly 0.65 at cycle counter 0, without a
  draw. At a counter \<open>c \<ge> 1\<close> it draws one Gaussian sample with mean 0 and deviation 0.02
  and returns \<open>0.65 + 0.02 * ln (c + 1)\<close> plus the sample, clamped into \<open>[0.60, 0.95]\<close>:
  the result is in this interval whatever the sample.
\<close>

theorem calculate_cci_formula:
  "(epoch a = 0 \<longrightarrow> calculate_cci E a g = (0.65, g)) \<and>
   (1 \<le> epoch a \<longrightarrow>
      calculate_cci E a g =
        (min 0.95 (max 0.60 (0.65 + 0.02 * ln (real (epoch a + 1)) + fst (random_gauss E 0 0.02 g))),
         snd (random_gauss E 0 0.02 g))) \<and>
   0.60 \<le> fst (calculate_cci E a g) \<and> fst (calculate_cci E a g) \<le> 0.95"
proof -
  have clamp: "0.60 \<le> min 0.95 (max 0.60 x) \<and> min 0.95 (max 0.60 x) \<le> 0.95" for x :: real
    by (simp add: min_def max_def)
  have "calculate_cci E a g = (0.65, g)" if "epoch a = 0"
    using that by (simp add: calculate_cci_def)
  moreover have "calculate_cci E a g =
        (min 0.95 (max 0.60 (0.65 + 0.02 * ln (real (epoch a + 1)) + fst (random_gauss E 0 0.02 g))),
         snd (random_gauss E 0 0.02 g))" if "1 \<le> epoch a"
    using that by (simp add: calculate_cci_def split_beta Let_def)
  moreover have "0.60 \<le> fst (calculate_cci E a g) \<and> fst (calculate_cci E a g) \<le> 0.95"
  proof (cases "epoch a = 0")
    case True
    then show ?thesis by (simp add: calculate_cci_def)
  next
    case False
    then have "fst (calculate_cci E a g) =
        min 0.95 (max 0.60 (0.65 + 0.02 * ln (real (epoch a + 1)) + fst (random_gauss E 0 0.02 g)))"
      by (simp add: calculate_cci_def split_beta Let_def)
    with clamp show ?thesis by (simp only:)
  qed
  ultimately show ?thesis by blast
qed

text \<open>
  A new agent, and an agent at cycle counter 1, in the counter environment.
\<close>

theorem calculate_cci_formula_witness:
  "calculate_cci counter_env (OGIAgent_init ''ogi_0'' ''medical_diagnosis'') 0 = (0.65, 0) \<and>
   epoch ((OGIAgent_init ''ogi_0'' ''medical_diagnosis'')\<lparr>epoch := 1\<rparr>) = 1 \<and>
   fst (calculate_cci counter_env ((OGIAgent_init ''ogi_0'' ''medical_diagnosis'')\<lparr>epoch := 1\<rparr>) 0)
     = min 0.95 (max 0.60 (0.65 + 0.02 * ln (real (1 + 1)) + fst (random_gauss counter_env 0 0.02 0))) \<and>
   0.60 \<le> fst (calculate_cci counter_env ((OGIAgent_init ''ogi_0'' ''medical_diagnosis'')\<lparr>epoch := 1\<rparr>) 0) \<and>
   fst (calculate_cci counter_env ((OGIAgent_init ''ogi_0'' ''medical_diagnosis'')\<lparr>epoch := 1\<rparr>) 0) \<le> 0.95"
proof -
  let ?a0 = "OGIAgent_init ''ogi_0'' ''medical_diagnosis''"
  let ?a1 = "?a0\<lparr>epoch := 1\<rparr>"
  have e0: "epoch ?a0 = 0" by (simp add: OGIAgent_init_def)
  have e1: "epoch ?a1 = 1" by simp
  then have e1': "1 \<le> epoch ?a1" by simp
  from calculate_cci_formula [of ?a0 counter_env 0] e0
  have c0: "calculate_cci counter_env ?a0 0 = (0.65, 0)" by blast
  from calculate_cci_formula [of ?a1 counter_env 0] e1'
  have c1: "calculate_cci counter_env ?a1 0 =
        (min 0.95 (max 0.60 (0.65 + 0.02 * ln (real (epoch ?a1 + 1))
            + fst (random_gauss counter_env 0 0.02 0))),
         snd (random_gauss counter_env 0 0.02 0))"
    and r1: "0.60 \<le> fst (calculate_cci counter_env ?a1 0)"
            "fst (calculate_cci counter_env ?a1 0) \<le> 0.95"
    by blast+
  from c1 have "fst (calculate_cci counter_env ?a1 0) =
      min 0.95 (max 0.60 (0.65 + 0.02 * ln (real (1 + 1)) + fst (random_gauss counter_env 0 0.02 0)))"
    by (simp only: e1 fst_conv)
  with c0 e1 r1 show ?thesis by blast
qed

text \<open>
  Claim C6. \<^verbatim>\<open>calculate_mutation_drift\<close> returns \<open>max 0 (0.10 - 0.005 * c)\<close> plus one
  Gaussian sample with mean 0 and deviation 0.01, and nothing clamps the sum: it is negative
  as soon as the sample is below the negated base, in particular for every negative sample
  from cycle counter 20 on, where the base is 0; and for every agent there are draws that
  make it negative.
\<close>

theorem calculate_mutation_drift_formula:
  "calculate_mutation_drift (E :: ('g, 't) env) a g =
     (max 0 (0.10 - 0.005 * real (epoch a)) + fst (random_gauss E 0 0.01 g),
      snd (random_gauss E 0 0.01 g)) \<and>
   (fst (random_gauss E 0 0.01 g) < - max 0 (0.10 - 0.005 * real (epoch a)) \<longrightarrow>
      fst (calculate_mutation_drift E a g) < 0) \<and>
   (20 \<le> epoch a \<and> fst (random_gauss E 0 0.01 g) < 0 \<longrightarrow>
      fst (calculate_mutation_drift E a g) < 0) \<and>
   (\<exists>(E' :: ('g, 't) env) g'. fst (calculate_mutation_drift E' a g') < 0)"
proof -
  have f: "calculate_mutation_drift E a g =
     (max 0 (0.10 - 0.005 * real (epoch a)) + fst (random_gauss E 0 0.01 g),
      snd (random_gauss E 0 0.01 g))"
    by (simp add: calculate_mutation_drift_def split_beta Let_def)
  have n: "fst (random_gauss E 0 0.01 g) < - max 0 (0.10 - 0.005 * real (epoch a)) \<longrightarrow>
      fst (calculate_mutation_drift E a g) < 0"
    by (simp add: f)
  have h: "20 \<le> epoch a \<and> fst (random_gauss E 0 0.01 g) < 0 \<longrightarrow>
      fst (calculate_mutation_drift E a g) < 0"
    by (simp add: f max_def)
  let ?E = "E\<lparr>random_gauss := (\<lambda>mu sigma s. (mu - (sigma + max 0 (0.10 - 0.005 * real (epoch a))), s))\<rparr>"
  have neg: "fst (calculate_mutation_drift ?E a g) < 0"
    by (simp add: calculate_mutation_drift_def split_beta Let_def)
  have "\<exists>(E' :: ('g, 't) env) g'. fst (calculate_mutation_drift E' a g') < 0"
    by (rule exI [where x = ?E], rule exI [where x = g]) (rule neg)
  with f n h show ?thesis by blast
qed

text \<open>
  An agent at cycle counter 20 with the sample -0.01.
\<close>

theorem calculate_mutation_drift_formula_witness:
  "(20::nat) \<le> epoch ((OGIAgent_init ''ogi_0'' ''medical_diagnosis'')\<lparr>epoch := 20\<rparr>) \<and>
   fst (random_gauss counter_env 0 0.01 0) = - 0.01 \<and>
   fst (random_gauss counter_env 0 0.01 0)
     < - max 0 (0.10 - 0.005 * real (epoch ((OGIAgent_init ''ogi_0'' ''medical_diagnosis'')\<lparr>epoch := 20\<rparr>))) \<and>
   fst (calculate_mutation_drift counter_env ((OGIAgent_init ''ogi_0'' ''medical_diagnosis'')\<lparr>epoch := 20\<rparr>) 0) < 0"
proof -
  let ?a = "(OGIAgent_init ''ogi_0'' ''medical_diagnosis'')\<lparr>epoch := 20\<rparr>"
  have e: "20 \<le> epoch ?a" by simp
  have gs: "fst (random_gauss counter_env 0 0.01 0) = - 0.01" by (simp add: counter_env_def)
  then have n: "fst (random_gauss counter_env 0 0.01 0) < - max 0 (0.10 - 0.005 * real (epoch ?a))"
    by simp
  with calculate_mutation_drift_formula [of counter_env ?a 0]
  have "fst (calculate_mutation_drift counter_env ?a 0) < 0" by blast
  with e gs n show ?thesis by blast
qed

subsection \<open>The synchronization\<close>

text \<open>
  Claim C1. A synchronization should move every strength towards the peers' strengths:
  with 0.516 and 0.518 for the same framework, to \<open>0.516 + 0.02 * (0.518 - 0.516)\<close> and
  \<open>0.518 + 0.02 * (0.516 - 0.518)\<close>. With any random source, \<^verbatim>\<open>ogi_supervised_sync\<close>
  returns the two agents as they were, which is not what the specified synchronization
  gives.
\<close>

theorem sync_applies_no_nudge:
  "map reasoning_frameworks two_agents
     = [[(''pattern_recognition'', 0.516)], [(''pattern_recognition'', 0.518)]] \<and>
   map reasoning_frameworks (fst (snd (ogi_supervised_sync E two_agents g)))
     = [[(''pattern_recognition'', 0.516)], [(''pattern_recognition'', 0.518)]] \<and>
   map reasoning_frameworks (spec_snapshot_sync two_agents)
     = [[(''pattern_recognition'', 0.51604)], [(''pattern_recognition'', 0.51796)]] \<and>
   fst (snd (ogi_supervised_sync E two_agents g)) \<noteq> spec_snapshot_sync two_agents"
proof -
  have pre: "map reasoning_frameworks two_agents
     = [[(''pattern_recognition'', 0.516)], [(''pattern_recognition'', 0.518)]]"
    by (simp add: two_agents_def)
  have code: "fst (snd (ogi_supervised_sync E two_agents g)) = two_agents"
    by (simp add: ogi_supervised_sync_def split_beta Let_def)
  have u: "[0 ..< 2] = [0, 1::nat]" by (simp add: upt_rec)
  have spec: "map reasoning_frameworks (spec_snapshot_sync two_agents)
     = [[(''pattern_recognition'', 0.51604)], [(''pattern_recognition'', 0.51796)]]"
    by (simp add: spec_snapshot_sync_def spec_nudged_def two_agents_def u)
  have "two_agents \<noteq> spec_snapshot_sync two_agents"
  proof
    assume "two_agents = spec_snapshot_sync two_agents"
    then have "map reasoning_frameworks two_agents
                 = map reasoning_frameworks (spec_snapshot_sync two_agents)" by simp
    then show False by (simp only: pre spec) simp
  qed
  with pre code spec show ?thesis by simp
qed

text \<open>
  \<^verbatim>\<open>share_medical_knowledge\<close>, the synchronization of the example, does apply this nudge,
  to \<^verbatim>\<open>diagnostic_frameworks\<close>: two hospitals at 0.5 and 0.6 move to 0.502 and 0.598.
\<close>

lemma share_medical_knowledge_nudges:
  "map diagnostic_frameworks (share_medical_knowledge (take 2 three_hospitals))
     = [[(''differential_diagnosis'', 0.502)], [(''differential_diagnosis'', 0.598)]]"
  by (simp add: share_medical_knowledge_def extract_diagnostic_insights_def three_hospitals_def
        MedicalDiagnosticAgent_init_def)

text \<open>
  It reads the hospital's own strength as already moved by the peers before, so with three
  hospitals the result depends on the order of the peers and is not the specified one.
\<close>

lemma share_medical_knowledge_order:
  "diagnostic_frameworks (hd (share_medical_knowledge three_hospitals))
     = [(''differential_diagnosis'', 0.50596)] \<and>
   diagnostic_frameworks (hd (share_medical_knowledge
       [three_hospitals ! 0, three_hospitals ! 2, three_hospitals ! 1]))
     = [(''differential_diagnosis'', 0.50592)] \<and>
   spec_nudged [[(''differential_diagnosis'', 0.6)], [(''differential_diagnosis'', 0.7)]]
       ''differential_diagnosis'' 0.5 = 0.506"
  by (simp add: share_medical_knowledge_def extract_diagnostic_insights_def three_hospitals_def
        MedicalDiagnosticAgent_init_def spec_nudged_def)

subsection \<open>The runner: rows of a scenario\<close>











subsection \<open>The runner: construction\<close>

text \<open>
  Claim C4 as stated asks that a runner with an agent count or a cycle count below 1 is
  refused. The constructor takes no parameter; the counts are attributes, and a runner
  whose counts are set to 0 runs a scenario and returns, having emitted nothing.
\<close>

theorem unchecked_configuration_counterexample:
  "num_agents (SimulationRunner_init\<lparr>num_agents := 0, num_epochs := 0\<rparr>) < 1 \<and>
   num_epochs (SimulationRunner_init\<lparr>num_agents := 0, num_epochs := 0\<rparr>) < 1 \<and>
   run_scenario counter_env (SimulationRunner_init\<lparr>num_agents := 0, num_epochs := 0\<rparr>)
       ''medical_diagnosis'' 0 0
     = (SimulationRunner_init\<lparr>num_agents := 0, num_epochs := 0\<rparr>, 0, 0)"
  by (simp add: run_scenario_def range_py_def SimulationRunner_init_def)

text \<open>
  Claim C4, amended. Construction takes no parameter and always gives 5 agents per variant,
  20 cycles, the three scenarios and no results (the synchronization period is the literal
  5 in \<^verbatim>\<open>run_scenario\<close>). Nothing validates the counts: with a cycle count below 1,
  \<^verbatim>\<open>run_scenario\<close> returns with the runner, the generator and the clock unchanged.
\<close>

theorem runner_construction_unchecked:
  "num_agents SimulationRunner_init = 5 \<and> num_epochs SimulationRunner_init = 20 \<and>
   scenarios SimulationRunner_init = [''medical_diagnosis'', ''disaster_response'', ''autonomous_labs''] \<and>
   results SimulationRunner_init = [] \<and>
   (num_epochs r < 1 \<longrightarrow> run_scenario E r sc g t = (r, g, t))"
  by (simp add: run_scenario_def range_py_def SimulationRunner_init_def)

text \<open>
  A runner whose cycle count is set to -3.
\<close>

theorem runner_construction_unchecked_witness:
  "num_epochs (SimulationRunner_init\<lparr>num_epochs := - 3\<rparr>) < 1 \<and>
   run_scenario counter_env (SimulationRunner_init\<lparr>num_epochs := - 3\<rparr>) ''autonomous_labs'' 0 0
     = (SimulationRunner_init\<lparr>num_epochs := - 3\<rparr>, 0, 0)"
proof -
  have "num_epochs (SimulationRunner_init\<lparr>num_epochs := - 3\<rparr>) < 1" by simp
  with runner_construction_unchecked
         [of "SimulationRunner_init\<lparr>num_epochs := - 3\<rparr>" counter_env "''autonomous_labs''" 0 0]
  show ?thesis by blast
qed

subsection \<open>The runner: scenarios and the random source\<close>

lemma develop_epoch_gen:
  "fst (snd (snd (develop_epoch E a g t))) = fst (snd (snd (develop_epoch E b g t')))"
  by (simp add: develop_epoch_def generate_hypothesis_def test_hypothesis_def
        record_to_ledger_def split_beta Let_def)

lemma develop_all_gen:
  "length as = length bs \<Longrightarrow>
     fst (snd (snd (develop_all E as g t))) = fst (snd (snd (develop_all E bs g t')))"
proof (induction as bs arbitrary: g t t' rule: list_induct2)
  case Nil
  show ?case by simp
next
  case (Cons a as b bs)
  let ?ga = "fst (snd (snd (develop_epoch E a g t)))"
  let ?gb = "fst (snd (snd (develop_epoch E b g t')))"
  have g: "?gb = ?ga" by (rule develop_epoch_gen)
  from Cons.IH [of ?ga "snd (snd (snd (develop_epoch E a g t)))" "snd (snd (snd (develop_epoch E b g t')))"]
  show ?case by (simp add: split_beta g)
qed

lemma develop_all_epochs:
  "map epoch (fst (snd (develop_all E as g t))) = map (\<lambda>a. epoch a + 1) as"
  by (induction as arbitrary: g t) (simp_all add: split_beta develop_epoch_epoch)

lemma train_epoch_gen: "snd (snd (train_epoch E f g)) = snd (snd (train_epoch E f' g))"
  by (simp add: train_epoch_def local_training_def upload_to_server_def split_beta Let_def)

lemma train_all_gen:
  "length fs = length fs' \<Longrightarrow>
     fst (snd (train_all E fs c g)) = fst (snd (train_all E fs' c g)) \<and>
     snd (snd (snd (train_all E fs c g))) = snd (snd (snd (train_all E fs' c g)))"
proof (induction fs fs' arbitrary: c g rule: list_induct2)
  case Nil
  show ?case by simp
next
  case (Cons f fs f' fs')
  have g: "snd (snd (train_epoch E f' g)) = snd (snd (train_epoch E f g))" by (rule train_epoch_gen)
  from Cons.IH [of "c + 45" "snd (snd (train_epoch E f g))"]
  show ?case by (simp add: split_beta g)
qed

lemma train_all_length: "length (fst (snd (snd (train_all E fs c g)))) = length fs"
  by (induction fs arbitrary: c g) (simp_all add: split_beta)

lemma draw_each_keyed:
  assumes "\<And>a b s. key a = key b \<Longrightarrow> m a s = m b s"
  shows "map key as = map key bs \<Longrightarrow> draw_each m as g = draw_each m bs g"
proof (induction as arbitrary: bs g)
  case Nil
  then show ?case by simp
next
  case (Cons a as)
  then obtain b bs' where bs: "bs = b # bs'" "key a = key b" "map key as = map key bs'"
    by (cases bs) auto
  from assms [OF bs(2)] have "m a g = m b g" .
  with Cons.IH [OF bs(3)] bs(1) show ?case by (simp add: split_beta)
qed

lemma draw_cci_epochs:
  "map epoch as = map epoch bs \<Longrightarrow>
     draw_each (calculate_cci E) as g = draw_each (calculate_cci E) bs g"
  by (rule draw_each_keyed [where key = epoch]) (simp_all add: calculate_cci_def)

lemma draw_drift_epochs:
  "map epoch as = map epoch bs \<Longrightarrow>
     draw_each (calculate_mutation_drift E) as g = draw_each (calculate_mutation_drift E) bs g"
  by (rule draw_each_keyed [where key = epoch]) (simp_all add: calculate_mutation_drift_def)

lemma draw_fl_cci_length:
  "length fs = length fs' \<Longrightarrow>
     draw_each (fl_calculate_cci E) fs g = draw_each (fl_calculate_cci E) fs' g"
  by (rule draw_each_keyed [where key = "\<lambda>f. ()"])
     (simp_all add: fl_calculate_cci_def map_replicate_const)

lemma draw_fl_drift_length:
  "length fs = length fs' \<Longrightarrow>
     draw_each (fl_calculate_mutation_drift E) fs g = draw_each (fl_calculate_mutation_drift E) fs' g"
  by (rule draw_each_keyed [where key = "\<lambda>f. ()"])
     (simp_all add: fl_calculate_mutation_drift_def map_replicate_const)

lemma run_epoch_same_draws:
  assumes o: "map epoch o1 = map epoch o2" and f: "length f1 = length f2"
  shows "map epoch (fst (run_epoch E sc1 ep (o1, f1, r1, g, t1)))
           = map epoch (fst (run_epoch E sc2 ep (o2, f2, r2, g, t2))) \<and>
         length (fst (snd (run_epoch E sc1 ep (o1, f1, r1, g, t1))))
           = length (fst (snd (run_epoch E sc2 ep (o2, f2, r2, g, t2)))) \<and>
         fst (snd (snd (snd (run_epoch E sc1 ep (o1, f1, r1, g, t1)))))
           = fst (snd (snd (snd (run_epoch E sc2 ep (o2, f2, r2, g, t2))))) \<and>
         (\<exists>row. results (fst (snd (snd (run_epoch E sc1 ep (o1, f1, r1, g, t1))))) = results r1 @ [row] \<and>
                results (fst (snd (snd (run_epoch E sc2 ep (o2, f2, r2, g, t2)))))
                  = results r2 @ [row\<lparr>m_scenario := sc2\<rparr>] \<and>
                m_scenario row = sc1)"
proof -
  let ?D1 = "develop_all E o1 g t1" and ?D2 = "develop_all E o2 g t2"
  let ?oa = "fst (snd ?D1)" and ?ob = "fst (snd ?D2)"
  let ?g1 = "fst (snd (snd ?D1))"
  from o have len: "length o1 = length o2" by (metis length_map)
  have g1: "fst (snd (snd ?D2)) = ?g1" using develop_all_gen [OF len, of E g t1 t2] by simp
  have oe: "map epoch ?oa = map epoch ?ob"
  proof -
    have "map (\<lambda>a. epoch a + 1) o1 = map ((\<lambda>n. n + 1) \<circ> epoch) o1" by simp
    also have "\<dots> = map (\<lambda>n. n + 1) (map epoch o1)" by simp
    also have "\<dots> = map (\<lambda>n. n + 1) (map epoch o2)" by (simp only: o)
    also have "\<dots> = map (\<lambda>a. epoch a + 1) o2" by simp
    finally show ?thesis by (simp only: develop_all_epochs)
  qed
  then have ol: "length ?oa = length ?ob" by (metis length_map)
  let ?T1 = "train_all E f1 0 ?g1" and ?T2 = "train_all E f2 0 ?g1"
  let ?fa = "fst (snd (snd ?T1))" and ?fb = "fst (snd (snd ?T2))"
  let ?g2 = "snd (snd (snd ?T1))"
  from train_all_gen [OF f, of E 0 ?g1]
  have tc: "fst (snd ?T2) = fst (snd ?T1)" and g2: "snd (snd (snd ?T2)) = ?g2" by simp_all
  have fl: "length ?fb = length ?fa" using f by (simp add: train_all_length)
  note c1 = draw_cci_epochs [OF oe, of E] and c2 = draw_fl_cci_length [OF fl, of E]
    and c3 = draw_drift_epochs [OF oe, of E] and c4 = draw_fl_drift_length [OF fl, of E]
  show ?thesis
  proof (cases "ep mod 5 = 0")
    case True
    then show ?thesis
      by (simp add: run_epoch_def ogi_supervised_sync_def split_beta Let_def
            g1 oe ol tc g2 fl c1 c2 c3 c4)
  next
    case False
    then show ?thesis
      by (simp add: run_epoch_def split_beta Let_def g1 oe ol tc g2 fl c1 c2 c3 c4)
  qed
qed

lemma run_epoch_config:
  "num_agents (fst (snd (snd (run_epoch E sc ep (ogi, fl, r, g, t))))) = num_agents r \<and>
   num_epochs (fst (snd (snd (run_epoch E sc ep (ogi, fl, r, g, t))))) = num_epochs r \<and>
   scenarios (fst (snd (snd (run_epoch E sc ep (ogi, fl, r, g, t))))) = scenarios r"
  by (simp add: run_epoch_def split_beta Let_def)

lemma run_epochs_config:
  "num_agents (fst (snd (snd (run_epochs E sc eps (ogi, fl, r, g, t))))) = num_agents r \<and>
   num_epochs (fst (snd (snd (run_epochs E sc eps (ogi, fl, r, g, t))))) = num_epochs r \<and>
   scenarios (fst (snd (snd (run_epochs E sc eps (ogi, fl, r, g, t))))) = scenarios r"
proof (induction eps arbitrary: ogi fl r g t)
  case Nil
  show ?case by simp
next
  case (Cons ep eps)
  obtain ogi1 fl1 r1 g1 t1 where s: "run_epoch E sc ep (ogi, fl, r, g, t) = (ogi1, fl1, r1, g1, t1)"
    by (cases "run_epoch E sc ep (ogi, fl, r, g, t)") auto
  from run_epoch_config [of E sc ep ogi fl r g t] s Cons.IH [of ogi1 fl1 r1 g1 t1]
  show ?case by simp
qed

lemma run_scenario_config:
  "num_agents (fst (run_scenario E r sc g t)) = num_agents r \<and>
   num_epochs (fst (run_scenario E r sc g t)) = num_epochs r \<and>
   scenarios (fst (run_scenario E r sc g t)) = scenarios r"
  using run_epochs_config [of E sc "range_py (num_epochs r)"
      "map (\<lambda>i. OGIAgent_init (''ogi_'' @ str_nat i) sc) (range_py (num_agents r))"
      "map (\<lambda>i. FederatedAgent_init (''fl_'' @ str_nat i) sc) (range_py (num_agents r))" r g t]
  by (simp add: run_scenario_def split_beta)

lemma run_epochs_same_draws:
  assumes "map epoch o1 = map epoch o2" "length f1 = length f2"
  shows "fst (snd (snd (snd (run_epochs E sc1 eps (o1, f1, r1, g, t1)))))
           = fst (snd (snd (snd (run_epochs E sc2 eps (o2, f2, r2, g, t2))))) \<and>
         (\<exists>rows. results (fst (snd (snd (run_epochs E sc1 eps (o1, f1, r1, g, t1))))) = results r1 @ rows \<and>
                 results (fst (snd (snd (run_epochs E sc2 eps (o2, f2, r2, g, t2)))))
                   = results r2 @ map (\<lambda>row. row\<lparr>m_scenario := sc2\<rparr>) rows \<and>
                 list_all (\<lambda>row. m_scenario row = sc1) rows)"
  using assms
proof (induction eps arbitrary: o1 f1 r1 g t1 o2 f2 r2 t2)
  case Nil
  have "results r1 = results r1 @ [] \<and>
        results r2 = results r2 @ map (\<lambda>row. row\<lparr>m_scenario := sc2\<rparr>) [] \<and>
        list_all (\<lambda>row. m_scenario row = sc1) []" by simp
  then show ?case by (simp del: append_Nil2) 
next
  case (Cons ep eps)
  obtain oa fa ra ga ta where s1: "run_epoch E sc1 ep (o1, f1, r1, g, t1) = (oa, fa, ra, ga, ta)"
    by (cases "run_epoch E sc1 ep (o1, f1, r1, g, t1)") auto
  obtain ob fb rb gb tb where s2: "run_epoch E sc2 ep (o2, f2, r2, g, t2) = (ob, fb, rb, gb, tb)"
    by (cases "run_epoch E sc2 ep (o2, f2, r2, g, t2)") auto
  from run_epoch_same_draws [OF Cons.prems, where E = E and ?sc1.0 = sc1 and ep = ep and ?r1.0 = r1
      and g = g and ?t1.0 = t1 and ?sc2.0 = sc2 and ?r2.0 = r2 and ?t2.0 = t2] s1 s2
  obtain row where
    rel: "map epoch oa = map epoch ob" "length fa = length fb" "ga = gb"
    and row: "results ra = results r1 @ [row]"
             "results rb = results r2 @ [row\<lparr>m_scenario := sc2\<rparr>]" "m_scenario row = sc1"
    by auto
  from Cons.IH [OF rel(1,2), where ?r1.0 = ra and g = ga and ?t1.0 = ta and ?r2.0 = rb and ?t2.0 = tb] rel(3)
  obtain rows where
    g': "fst (snd (snd (snd (run_epochs E sc1 eps (oa, fa, ra, ga, ta)))))
           = fst (snd (snd (snd (run_epochs E sc2 eps (ob, fb, rb, gb, tb)))))"
    and rows: "results (fst (snd (snd (run_epochs E sc1 eps (oa, fa, ra, ga, ta))))) = results ra @ rows"
       "results (fst (snd (snd (run_epochs E sc2 eps (ob, fb, rb, gb, tb)))))
          = results rb @ map (\<lambda>row. row\<lparr>m_scenario := sc2\<rparr>) rows"
       "list_all (\<lambda>row. m_scenario row = sc1) rows"
    by auto
  have "\<exists>rows'. results (fst (snd (snd (run_epochs E sc1 (ep # eps) (o1, f1, r1, g, t1))))) = results r1 @ rows' \<and>
                 results (fst (snd (snd (run_epochs E sc2 (ep # eps) (o2, f2, r2, g, t2)))))
                   = results r2 @ map (\<lambda>row. row\<lparr>m_scenario := sc2\<rparr>) rows' \<and>
                 list_all (\<lambda>row. m_scenario row = sc1) rows'"
    by (rule exI [of _ "row # rows"]) (simp add: s1 s2 row rows)
  with g' s1 s2 show ?case by simp
qed

lemma run_scenario_same_draws:
  assumes "num_agents r1 = num_agents r2" "num_epochs r1 = num_epochs r2"
  shows "fst (snd (run_scenario E r1 sc1 g t1)) = fst (snd (run_scenario E r2 sc2 g t2)) \<and>
         (\<exists>rows. results (fst (run_scenario E r1 sc1 g t1)) = results r1 @ rows \<and>
                 results (fst (run_scenario E r2 sc2 g t2))
                   = results r2 @ map (\<lambda>row. row\<lparr>m_scenario := sc2\<rparr>) rows \<and>
                 list_all (\<lambda>row. m_scenario row = sc1) rows)"
proof -
  let ?o1 = "map (\<lambda>i. OGIAgent_init (''ogi_'' @ str_nat i) sc1) (range_py (num_agents r1))"
  let ?o2 = "map (\<lambda>i. OGIAgent_init (''ogi_'' @ str_nat i) sc2) (range_py (num_agents r2))"
  let ?f1 = "map (\<lambda>i. FederatedAgent_init (''fl_'' @ str_nat i) sc1) (range_py (num_agents r1))"
  let ?f2 = "map (\<lambda>i. FederatedAgent_init (''fl_'' @ str_nat i) sc2) (range_py (num_agents r2))"
  have o: "map epoch ?o1 = map epoch ?o2" by (simp add: assms(1) OGIAgent_init_def)
  have f: "length ?f1 = length ?f2" by (simp add: assms(1))
  from run_epochs_same_draws [OF o f, where E = E and ?sc1.0 = sc1 and eps = "range_py (num_epochs r1)"
      and ?r1.0 = r1 and g = g and ?t1.0 = t1 and ?sc2.0 = sc2 and ?r2.0 = r2 and ?t2.0 = t2]
  show ?thesis by (simp add: run_scenario_def split_beta assms(2))
qed

text \<open>
  \<^verbatim>\<open>run_full_simulation\<close> itself never seeds: the second scenario starts from the generator
  state that the first one left.
\<close>

lemma run_scenarios_two:
  "run_scenarios E [a, b] r g t =
     (let (r1, g1, t1) = run_scenario E r a g t in run_scenario E r1 b g1 t1)"
  by (simp add: split_beta)

lemma filter_retagged:
  "list_all (\<lambda>row. m_scenario row = a) rows \<Longrightarrow>
     filter (\<lambda>m. m_scenario m = a) rows = rows \<and>
     (a \<noteq> b \<longrightarrow> filter (\<lambda>m. m_scenario m = b) rows = [] \<and>
        filter (\<lambda>m. m_scenario m = a) (map (\<lambda>row. row\<lparr>m_scenario := b\<rparr>) rows) = []) \<and>
     filter (\<lambda>m. m_scenario m = b) (map (\<lambda>row. row\<lparr>m_scenario := b\<rparr>) rows)
       = map (\<lambda>row. row\<lparr>m_scenario := b\<rparr>) rows \<and>
     map (\<lambda>row. row\<lparr>m_scenario := a\<rparr>) rows = rows"
  by (induction rows) auto

text \<open>
  Claim C9. Two scenarios \<open>a\<close> and \<open>b\<close> are processed by one runner in the order
  \<open>a, b\<close> and in the order \<open>b, a\<close>, every scenario starting from the same generator state
  \<open>g\<close> (seeded identically per scenario); the clock runs on. Then the rows of \<open>a\<close> are the
  same in both orders, and so are the rows of \<open>b\<close>; the generator state that a scenario
  leaves does not depend on its position, nor on which of the two scenarios it is.
\<close>

theorem scenario_isolation:
  "let (ra, ga, ta) = run_scenario E r0 a g t0;
       (rab, gab, tab) = run_scenario E ra b g ta;
       (rb, gb, tb) = run_scenario E r0 b g t0;
       (rba, gba, tba) = run_scenario E rb a g tb
   in records_of a rab = records_of a rba \<and> records_of b rab = records_of b rba \<and>
      gba = ga \<and> gab = gb \<and> ga = gb"
proof -
  obtain ra ga ta where A: "run_scenario E r0 a g t0 = (ra, ga, ta)"
    by (cases "run_scenario E r0 a g t0") auto
  obtain rab gab tab where AB: "run_scenario E ra b g ta = (rab, gab, tab)"
    by (cases "run_scenario E ra b g ta") auto
  obtain rb gb tb where B: "run_scenario E r0 b g t0 = (rb, gb, tb)"
    by (cases "run_scenario E r0 b g t0") auto
  obtain rba gba tba where BA: "run_scenario E rb a g tb = (rba, gba, tba)"
    by (cases "run_scenario E rb a g tb") auto
  from run_scenario_config [of E r0 a g t0] A
  have ca: "num_agents r0 = num_agents ra" "num_epochs r0 = num_epochs ra" by simp_all
  from run_scenario_config [of E r0 b g t0] B
  have cb: "num_agents r0 = num_agents rb" "num_epochs r0 = num_epochs rb" by simp_all
  from run_scenario_same_draws [where E = E and ?r1.0 = r0 and ?r2.0 = r0 and ?sc1.0 = a
      and ?sc2.0 = b and g = g and ?t1.0 = t0 and ?t2.0 = t0] A B
  obtain rows where g1: "ga = gb"
    and rows: "results ra = results r0 @ rows"
      "results rb = results r0 @ map (\<lambda>row. row\<lparr>m_scenario := b\<rparr>) rows"
      "list_all (\<lambda>row. m_scenario row = a) rows"
    by auto
  from run_scenario_same_draws [OF ca, where E = E and ?sc1.0 = a and ?sc2.0 = b and g = g
      and ?t1.0 = t0 and ?t2.0 = ta] A AB rows(1)
  obtain rows' where g2: "ga = gab"
    and rows': "results r0 @ rows' = results r0 @ rows"
      "results rab = results ra @ map (\<lambda>row. row\<lparr>m_scenario := b\<rparr>) rows'"
    by auto
  from rows'(1) have same: "rows' = rows" by simp
  from run_scenario_same_draws [OF cb, where E = E and ?sc1.0 = a and ?sc2.0 = a and g = g
      and ?t1.0 = t0 and ?t2.0 = tb] A BA rows(1)
  obtain rows'' where g3: "ga = gba"
    and rows'': "results r0 @ rows'' = results r0 @ rows"
      "results rba = results rb @ map (\<lambda>row. row\<lparr>m_scenario := a\<rparr>) rows''"
    by auto
  from rows''(1) have same': "rows'' = rows" by simp
  note ft = filter_retagged [OF rows(3), of b]
  have rab: "results rab = results r0 @ rows @ map (\<lambda>row. row\<lparr>m_scenario := b\<rparr>) rows"
    using rows'(2) same rows(1) by simp
  have rba: "results rba = results r0 @ map (\<lambda>row. row\<lparr>m_scenario := b\<rparr>) rows @ rows"
    using rows''(2) same' rows(2) ft by simp
  have "records_of a rab = records_of a rba \<and> records_of b rab = records_of b rba"
  proof (cases "a = b")
    case True
    with ft have "map (\<lambda>row. row\<lparr>m_scenario := b\<rparr>) rows = rows" by simp
    with rab rba show ?thesis by (simp add: records_of_def)
  next
    case False
    with ft show ?thesis by (simp add: records_of_def rab rba)
  qed
  with g1 g2 g3 A AB B BA show ?thesis by simp
qed

end
